theory Spec2Isabelle
  imports Main "HOL-Library.AList"
begin

section \<open>Data model of the e-mail retry coordinator (index.js)\<close>

text \<open>
  The server keeps one in-memory table, \<^verbatim>\<open>pendingEmailRetries\<close> (a JavaScript Map keyed
  by client id), and talks to the outside world through Node timers, the mail transport and
  the file system. The model makes each of them a component of an explicit state:
  \<^item> the Map is an association list in insertion order (\<open>AList.update\<close> replaces in
    place or appends, \<open>AList.delete\<close> removes, \<open>map_of\<close> reads), as a Map iterates;
  \<^item> \<^verbatim>\<open>setTimeout\<close> appends a timer (handle, due time, callback) to the list of armed
    timers, \<^verbatim>\<open>clearTimeout\<close> removes the timer with that handle; the closures handed to
    \<^verbatim>\<open>setTimeout\<close> are first-order values of type \<open>callback\<close>;
  \<^item> \<^verbatim>\<open>Date.now()\<close> is the clock field \<open>now\<close> (milliseconds, an integer);
  \<^item> the file system is a function from paths to a file status;
  \<^item> the mail transport is opaque: the outcome of one delivery attempt (both
    \<^verbatim>\<open>sendMail\<close> calls) is a parameter of the model;
  \<^item> \<open>console\<close> records the log lines the properties below speak about.
\<close>

type_synonym form_data = "(string \<times> string) list"

record upload =
  fieldname :: string
  originalname :: string
  path :: string

record payment_info =
  paymentId :: string
  orderId :: "string option"
  amount :: "string option"
  transactionId :: string
  orderStatus :: string

record retry_data =
  formData :: form_data
  files :: "upload list"
  clientId :: string
  paymentInfo :: "payment_info option"
  retryCount :: nat
  createdAt :: int
  timeoutId :: "nat option"

text \<open>The three closures the source passes to \<^verbatim>\<open>setTimeout\<close>: the retry closure of
  \<^verbatim>\<open>sendEmailsWithRetry\<close> (lines 170-173), the outer closure of \<^verbatim>\<open>scheduleFileCleanup\<close>
  (lines 256-266) and its inner closure (line 262).\<close>

datatype callback =
    RetryCb form_data "upload list" string "payment_info option" nat
  | CleanupCheckCb "upload list" string
  | CleanupRunCb "upload list" string

record timer =
  tid :: nat
  due :: int
  cb :: callback

datatype file_status = Missing | Present | Undeletable

text \<open>Log lines. \<open>SendingAttempt c n\<close> is line 119 (attempt number \<open>retryCount + 1\<close>),
  \<open>RetryScheduled c n d fb\<close> is line 156 (retry \<open>n\<close> in \<open>d\<close> ms; \<open>fb\<close> records whether
  the \<^verbatim>\<open>||\<close> of the delay lookup took its right operand), \<open>CleanupStarted c fs has\<close> is
  line 271 (\<open>has\<close> records \<^verbatim>\<open>pendingEmailRetries.has(clientId)\<close> at the moment of the
  call), \<open>CleanupCompleted c deleted errors\<close> is line 292.\<close>

datatype log_line =
    SendingAttempt string nat
  | RetryScheduled string nat int bool
  | CleanupStarted string "upload list" bool
  | CleanupCompleted string nat nat

text \<open>The result of one delivery attempt: \<open>Sent\<close> when both \<^verbatim>\<open>sendMail\<close> calls
  resolved, \<open>Failed msg\<close> when one of them threw (\<open>msg\<close> is \<^verbatim>\<open>error.message\<close>).\<close>

datatype delivery = Sent | Failed string

text \<open>The three shapes of the object \<^verbatim>\<open>sendEmailsWithRetry\<close> returns:
  \<^verbatim>\<open>{success: true}\<close>, \<^verbatim>\<open>{success: false, willRetry: true, retryCount, nextRetryIn}\<close>
  and \<^verbatim>\<open>{success: false, willRetry: false, error}\<close>.\<close>

datatype email_result = Success | WillRetry nat int | NoRetry string

fun success :: "email_result \<Rightarrow> bool" where
  "success Success = True"
| "success _ = False"

fun willRetry :: "email_result \<Rightarrow> bool" where
  "willRetry (WillRetry _ _) = True"
| "willRetry _ = False"

text \<open>A call of \<^verbatim>\<open>sendEmailsWithRetry\<close> that is suspended at an \<^verbatim>\<open>await\<close> of the
  transport, with the caller that will resume after it.\<close>

datatype origin = FromContact | FromTimer | FromManual

record pending_call =
  pc_formData :: form_data
  pc_files :: "upload list"
  pc_clientId :: string
  pc_paymentInfo :: "payment_info option"
  pc_retryCount :: nat
  pc_origin :: origin

record state =
  pendingEmailRetries :: "(string \<times> retry_data) list"
  timers :: "timer list"
  nextTimerId :: nat
  now :: int
  production :: bool
  disk :: "string \<Rightarrow> file_status"
  console :: "log_line list"
  inflight :: "pending_call list"

definition initial :: "bool \<Rightarrow> (string \<Rightarrow> file_status) \<Rightarrow> state" where
  "initial isProd d =
     \<lparr>pendingEmailRetries = [], timers = [], nextTimerId = 0, now = 0, production = isProd,
      disk = d, console = [], inflight = []\<rparr>"

subsection \<open>EMAIL_RETRY_CONFIG (lines 110-114)\<close>

definition maxRetries :: nat where
  "maxRetries = 5"

definition retryDelays :: "int list" where
  "retryDelays = [30000, 60000, 120000, 300000, 600000]"

definition maxAge :: int where
  "maxAge = 30 * 60 * 1000"

text \<open>\<^verbatim>\<open>retryDelays[i]\<close>: \<^verbatim>\<open>undefined\<close> (here \<open>None\<close>) outside the array.\<close>

definition delayAt :: "nat \<Rightarrow> int option" where
  "delayAt i = (if i < length retryDelays then Some (retryDelays ! i) else None)"

text \<open>Whether \<^verbatim>\<open>retryDelays[i] || \<dots>\<close> takes its right operand: the left one is
  \<^verbatim>\<open>undefined\<close> or \<open>0\<close>.\<close>

definition usesFallback :: "nat \<Rightarrow> bool" where
  "usesFallback i = (case delayAt i of None \<Rightarrow> True | Some d \<Rightarrow> d = 0)"

text \<open>Line 154: \<^verbatim>\<open>retryDelays[retryCount] || retryDelays[retryDelays.length - 1]\<close>.\<close>

definition retryDelay :: "nat \<Rightarrow> int" where
  "retryDelay i =
     (if usesFallback i then retryDelays ! (length retryDelays - 1) else the (delayAt i))"

subsection \<open>Timers, log and the Map\<close>

definition setTimeout :: "callback \<Rightarrow> int \<Rightarrow> state \<Rightarrow> nat \<times> state" where
  "setTimeout c delay st =
     (nextTimerId st,
      st\<lparr>timers := timers st @ [\<lparr>tid = nextTimerId st, due = now st + delay, cb = c\<rparr>],
         nextTimerId := Suc (nextTimerId st)\<rparr>)"

definition clearTimeout :: "nat \<Rightarrow> state \<Rightarrow> state" where
  "clearTimeout h st = st\<lparr>timers := filter (\<lambda>t. tid t \<noteq> h) (timers st)\<rparr>"

text \<open>\<^verbatim>\<open>if (retryData.timeoutId) clearTimeout(retryData.timeoutId)\<close>.\<close>

definition cancelTimerOf :: "retry_data \<Rightarrow> state \<Rightarrow> state" where
  "cancelTimerOf rd st = (case timeoutId rd of None \<Rightarrow> st | Some h \<Rightarrow> clearTimeout h st)"

definition logLine :: "log_line \<Rightarrow> state \<Rightarrow> state" where
  "logLine l st = st\<lparr>console := console st @ [l]\<rparr>"

definition has :: "string \<Rightarrow> state \<Rightarrow> bool" where
  "has c st = (map_of (pendingEmailRetries st) c \<noteq> None)"

subsection \<open>cleanupFiles (lines 270-298)\<close>

definition existsSync :: "(string \<Rightarrow> file_status) \<Rightarrow> string \<Rightarrow> bool" where
  "existsSync d p = (d p \<noteq> Missing)"

text \<open>\<^verbatim>\<open>fs.promises.unlink\<close>: removes a present file, rejects (\<open>Inl\<close>) on a missing one and
  on one the process may not remove.\<close>

definition unlink :: "string \<Rightarrow> (string \<Rightarrow> file_status) \<Rightarrow> string + (string \<Rightarrow> file_status)" where
  "unlink p d =
     (case d p of
        Present \<Rightarrow> Inr (d(p := Missing))
      | Missing \<Rightarrow> Inl ''ENOENT''
      | Undeletable \<Rightarrow> Inl ''EPERM'')"

text \<open>The loop of \<^verbatim>\<open>cleanupFiles\<close> with its two counters; the \<^verbatim>\<open>catch\<close> inside the
  loop turns a rejected unlink into \<open>errorCount + 1\<close>.\<close>

fun cleanupLoop ::
  "upload list \<Rightarrow> (string \<Rightarrow> file_status) \<Rightarrow> nat \<Rightarrow> nat \<Rightarrow> nat \<times> nat \<times> (string \<Rightarrow> file_status)" where
  "cleanupLoop [] d deletedCount errorCount = (deletedCount, errorCount, d)"
| "cleanupLoop (f # fs) d deletedCount errorCount =
     (if existsSync d (path f) then
        (case unlink (path f) d of
           Inr d' \<Rightarrow> cleanupLoop fs d' (Suc deletedCount) errorCount
         | Inl e \<Rightarrow> cleanupLoop fs d deletedCount (Suc errorCount))
      else cleanupLoop fs d deletedCount errorCount)"

definition cleanupFiles :: "upload list \<Rightarrow> string \<Rightarrow> state \<Rightarrow> state" where
  "cleanupFiles fs c st =
     (let st1 = logLine (CleanupStarted c fs (has c st)) st;
          (deletedCount, errorCount, d') = cleanupLoop fs (disk st1) 0 0
      in logLine (CleanupCompleted c deletedCount errorCount) (st1\<lparr>disk := d'\<rparr>))"

subsection \<open>scheduleFileCleanup (lines 248-267)\<close>

definition scheduleFileCleanup :: "upload list \<Rightarrow> string \<Rightarrow> state \<Rightarrow> state" where
  "scheduleFileCleanup fs c st =
     snd (setTimeout (CleanupCheckCb fs c)
            (if production st then 5 * 60 * 1000 else 30 * 60 * 1000) st)"

text \<open>The body of the outer closure (lines 257-265).\<close>

definition cleanupCheck :: "upload list \<Rightarrow> string \<Rightarrow> state \<Rightarrow> state" where
  "cleanupCheck fs c st =
     (if has c st then
        snd (setTimeout (CleanupRunCb fs c)
               (if production st then 2 * 60 * 1000 else 10 * 60 * 1000) st)
      else cleanupFiles fs c st)"

subsection \<open>sendEmailsWithRetry (lines 117-196)\<close>

text \<open>Up to the first \<^verbatim>\<open>await\<close> the function only logs line 119.\<close>

definition sendEmailsWithRetry_begin :: "string \<Rightarrow> nat \<Rightarrow> state \<Rightarrow> state" where
  "sendEmailsWithRetry_begin c rc st = logLine (SendingAttempt c (rc + 1)) st"

text \<open>What runs once the transport has answered: lines 129-146 after \<open>Sent\<close>, the
  \<^verbatim>\<open>catch\<close> block (lines 148-195) after \<open>Failed\<close>.\<close>

definition sendEmailsWithRetry_settle ::
  "delivery \<Rightarrow> form_data \<Rightarrow> upload list \<Rightarrow> string \<Rightarrow> payment_info option \<Rightarrow> nat \<Rightarrow> state
     \<Rightarrow> email_result \<times> state" where
  "sendEmailsWithRetry_settle out fd fs c pay rc st =
     (case out of
        Sent \<Rightarrow>
          (case map_of (pendingEmailRetries st) c of
             Some rd \<Rightarrow>
               (let st1 = cancelTimerOf rd st;
                    st2 = st1\<lparr>pendingEmailRetries := AList.delete c (pendingEmailRetries st1)\<rparr>;
                    st3 = (if fs \<noteq> [] then scheduleFileCleanup fs c st2 else st2)
                in (Success, st3))
           | None \<Rightarrow> (Success, st))
      | Failed msg \<Rightarrow>
          if pay \<noteq> None \<and> rc < maxRetries then
            (let nextRetryCount = rc + 1;
                 delay = retryDelay rc;
                 st1 = logLine (RetryScheduled c nextRetryCount delay (usesFallback rc)) st;
                 (h, st2) = setTimeout (RetryCb fd fs c pay nextRetryCount) delay st1;
                 rd = \<lparr>formData = fd, files = fs, clientId = c, paymentInfo = pay,
                       retryCount = nextRetryCount, createdAt = now st, timeoutId = Some h\<rparr>;
                 st3 = st2\<lparr>pendingEmailRetries := AList.update c rd (pendingEmailRetries st2)\<rparr>
             in (WillRetry nextRetryCount delay, st3))
          else if pay \<noteq> None then
            (NoRetry msg, if fs \<noteq> [] then cleanupFiles fs c st else st)
          else (NoRetry msg, st))"

text \<open>The whole call when nothing else runs between the call and the answer of the
  transport.\<close>

definition sendEmailsWithRetry ::
  "delivery \<Rightarrow> form_data \<Rightarrow> upload list \<Rightarrow> string \<Rightarrow> payment_info option \<Rightarrow> nat \<Rightarrow> state
     \<Rightarrow> email_result \<times> state" where
  "sendEmailsWithRetry out fd fs c pay rc st =
     sendEmailsWithRetry_settle out fd fs c pay rc (sendEmailsWithRetry_begin c rc st)"

subsection \<open>cleanupOldRetries (lines 199-227), run every five minutes (line 230)\<close>

definition expiredEntries :: "state \<Rightarrow> string list" where
  "expiredEntries st =
     map fst (filter (\<lambda>(c, rd). now st - createdAt rd > maxAge) (pendingEmailRetries st))"

text \<open>The body of the \<^verbatim>\<open>forEach\<close> (lines 210-221). The ids come from the keys of the
  Map read just before, so the lookup finds its entry.\<close>

definition purgeEntry :: "string \<Rightarrow> state \<Rightarrow> state" where
  "purgeEntry c st =
     (case map_of (pendingEmailRetries st) c of
        None \<Rightarrow> st
      | Some rd \<Rightarrow>
          (let st1 = cancelTimerOf rd st;
               st2 = (if files rd \<noteq> [] then cleanupFiles (files rd) c st1 else st1)
           in st2\<lparr>pendingEmailRetries := AList.delete c (pendingEmailRetries st2)\<rparr>))"

definition cleanupOldRetries :: "state \<Rightarrow> state" where
  "cleanupOldRetries st = fold purgeEntry (expiredEntries st) st"


subsection \<open>POST /api/contact (lines 737-860)\<close>

datatype response =
    MissingFields400
  | AadharMissing400
  | Submitted200 string nat
  | Retrying200 string nat
  | Failed500
  | ClientIdRequired400
  | NotFound404 string
  | RetryResult200 string email_result

text \<open>JavaScript truthiness of a form field: present and not the empty string.\<close>

definition truthy :: "string option \<Rightarrow> bool" where
  "truthy v = (case v of None \<Rightarrow> False | Some s \<Rightarrow> s \<noteq> [])"

definition startsWith :: "string \<Rightarrow> string \<Rightarrow> bool" where
  "startsWith s p = (take (length p) s = p)"

text \<open>The handler's own \<^verbatim>\<open>allFiles.forEach(file => fs.unlink(file.path, \<dots>))\<close>: an error
  is only logged.\<close>

definition unlinkAll :: "upload list \<Rightarrow> state \<Rightarrow> state" where
  "unlinkAll fs st =
     st\<lparr>disk := fold (\<lambda>f d. case unlink (path f) d of Inr d' \<Rightarrow> d' | Inl e \<Rightarrow> d) fs (disk st)\<rparr>"

text \<open>Lines 773-779.\<close>

definition extractPayment :: "form_data \<Rightarrow> payment_info option" where
  "extractPayment fd =
     (if truthy (map_of fd ''paymentId'') then
        Some \<lparr>paymentId = the (map_of fd ''paymentId''),
              orderId = map_of fd ''orderId'',
              amount = map_of fd ''paymentAmount'',
              transactionId =
                (if truthy (map_of fd ''transactionId'') then the (map_of fd ''transactionId'')
                 else the (map_of fd ''paymentId'')),
              orderStatus =
                (if truthy (map_of fd ''orderStatus'') then the (map_of fd ''orderStatus'')
                 else ''PAID'')\<rparr>
      else None)"

text \<open>Lines 745-770: \<open>Some r\<close> is an early \<^verbatim>\<open>return res.status(400)\<close>.\<close>

definition contactValidate :: "form_data \<Rightarrow> upload list \<Rightarrow> state \<Rightarrow> response option \<times> state" where
  "contactValidate fd fs st =
     (if \<not> truthy (map_of fd ''name'') \<or> \<not> truthy (map_of fd ''email'')
         \<or> \<not> truthy (map_of fd ''phone'') \<or> \<not> truthy (map_of fd ''service'')
      then (Some MissingFields400, st)
      else if filter (\<lambda>f. startsWith (fieldname f) ''aadharCard'') fs = []
      then (Some AadharMissing400, unlinkAll fs st)
      else (None, st))"

text \<open>Lines 806-859: what the handler does with \<^verbatim>\<open>emailResult\<close>; the \<^verbatim>\<open>throw\<close> of the
  last branch lands in the handler's own \<^verbatim>\<open>catch\<close>, which unlinks the uploads.\<close>

definition contactResume ::
  "email_result \<Rightarrow> upload list \<Rightarrow> string \<Rightarrow> payment_info option \<Rightarrow> state \<Rightarrow> response \<times> state" where
  "contactResume res fs c pay st =
     (if success res then
        (Submitted200 c (length fs), if fs \<noteq> [] then scheduleFileCleanup fs c st else st)
      else if willRetry res \<and> pay \<noteq> None then (Retrying200 c (length fs), st)
      else (Failed500, unlinkAll fs st))"

text \<open>The handler when nothing else runs while it awaits the transport; \<open>c\<close> is the id
  \<^verbatim>\<open>generateClientId()\<close> returned.\<close>

definition contactHandler ::
  "delivery \<Rightarrow> form_data \<Rightarrow> upload list \<Rightarrow> string \<Rightarrow> state \<Rightarrow> response \<times> state" where
  "contactHandler out fd fs c st =
     (case contactValidate fd fs st of
        (Some r, st1) \<Rightarrow> (r, st1)
      | (None, st1) \<Rightarrow>
          (let pay = extractPayment fd;
               (res, st2) = sendEmailsWithRetry out fd fs c pay 0 st1
           in contactResume res fs c pay st2))"

subsection \<open>POST /api/retry-email (lines 1014-1059)\<close>

text \<open>Lines 1016-1035: the lookup and the cancellation of the pending timer.\<close>

definition retryEmailPrepare :: "string option \<Rightarrow> state \<Rightarrow> response + retry_data \<times> state" where
  "retryEmailPrepare body st =
     (if \<not> truthy body then Inl ClientIdRequired400
      else case map_of (pendingEmailRetries st) (the body) of
             None \<Rightarrow> Inl (NotFound404 (the body))
           | Some rd \<Rightarrow> Inr (rd, cancelTimerOf rd st))"

definition retryEmailHandler :: "delivery \<Rightarrow> string option \<Rightarrow> state \<Rightarrow> response \<times> state" where
  "retryEmailHandler out body st =
     (case retryEmailPrepare body st of
        Inl r \<Rightarrow> (r, st)
      | Inr (rd, st1) \<Rightarrow>
          (let (res, st2) =
                 sendEmailsWithRetry out (formData rd) (files rd) (clientId rd) (paymentInfo rd)
                   (retryCount rd) st1
           in (RetryResult200 (the body) res, st2)))"

subsection \<open>The event loop\<close>

text \<open>
  Node runs one callback at a time; a callback gives up control at an \<^verbatim>\<open>await\<close>. A call of
  \<^verbatim>\<open>sendEmailsWithRetry\<close> that waits for the transport is kept in \<open>inflight\<close> until
  \<open>Settles k out\<close> delivers the transport's answer to the \<open>k\<close>-th waiting call. A timer
  fires only once it is due, and leaves the list of armed timers when it does.
\<close>

datatype event =
    Advance nat
  | Contact form_data "upload list" string
  | TimerFires nat
  | ManualRetry "string option"
  | Settles nat delivery
  | Sweep

definition suspend :: "pending_call \<Rightarrow> state \<Rightarrow> state" where
  "suspend call st =
     sendEmailsWithRetry_begin (pc_clientId call) (pc_retryCount call)
       (st\<lparr>inflight := inflight st @ [call]\<rparr>)"

fun runCallback :: "callback \<Rightarrow> state \<Rightarrow> state" where
  "runCallback (RetryCb fd fs c pay n) st =
     suspend \<lparr>pc_formData = fd, pc_files = fs, pc_clientId = c, pc_paymentInfo = pay,
              pc_retryCount = n, pc_origin = FromTimer\<rparr> st"
| "runCallback (CleanupCheckCb fs c) st = cleanupCheck fs c st"
| "runCallback (CleanupRunCb fs c) st = cleanupFiles fs c st"

definition fireTimer :: "nat \<Rightarrow> state \<Rightarrow> state" where
  "fireTimer h st =
     (case find (\<lambda>t. tid t = h) (timers st) of
        None \<Rightarrow> st
      | Some t \<Rightarrow> if due t \<le> now st then runCallback (cb t) (clearTimeout h st) else st)"

definition settle :: "nat \<Rightarrow> delivery \<Rightarrow> state \<Rightarrow> state" where
  "settle k out st =
     (if k < length (inflight st) then
        (let call = inflight st ! k;
             st1 = st\<lparr>inflight := take k (inflight st) @ drop (Suc k) (inflight st)\<rparr>;
             (res, st2) =
               sendEmailsWithRetry_settle out (pc_formData call) (pc_files call) (pc_clientId call)
                 (pc_paymentInfo call) (pc_retryCount call) st1
         in if pc_origin call = FromContact
            then snd (contactResume res (pc_files call) (pc_clientId call) (pc_paymentInfo call) st2)
            else st2)
      else st)"

fun step :: "event \<Rightarrow> state \<Rightarrow> state" where
  "step (Advance dt) st = st\<lparr>now := now st + int dt\<rparr>"
| "step (Contact fd fs c) st =
     (case contactValidate fd fs st of
        (Some r, st1) \<Rightarrow> st1
      | (None, st1) \<Rightarrow>
          suspend \<lparr>pc_formData = fd, pc_files = fs, pc_clientId = c,
                   pc_paymentInfo = extractPayment fd, pc_retryCount = 0,
                   pc_origin = FromContact\<rparr> st1)"
| "step (TimerFires h) st = fireTimer h st"
| "step (ManualRetry body) st =
     (case retryEmailPrepare body st of
        Inl r \<Rightarrow> st
      | Inr (rd, st1) \<Rightarrow>
          suspend \<lparr>pc_formData = formData rd, pc_files = files rd, pc_clientId = clientId rd,
                   pc_paymentInfo = paymentInfo rd, pc_retryCount = retryCount rd,
                   pc_origin = FromManual\<rparr> st1)"
| "step (Settles k out) st = settle k out st"
| "step Sweep st = cleanupOldRetries st"

text \<open>Events are processed oldest first.\<close>

definition run :: "event list \<Rightarrow> state \<Rightarrow> state" where
  "run evs st = fold step evs st"

subsection \<open>The automatic retry loop of one submission\<close>

text \<open>
  The self-rescheduling closure of lines 170-173, followed through: an attempt runs; when it
  answers \<^verbatim>\<open>willRetry\<close>, the timer it armed fires once its delay has passed (the clock
  advances by the delay and the entry's timer leaves the armed list) and its closure runs the
  next attempt with \<^verbatim>\<open>nextRetryCount\<close>; any other answer ends the loop.
  \<open>transport n\<close> is what the mail transport does at the attempt with index \<open>n\<close>.
\<close>

definition timerElapses :: "string \<Rightarrow> int \<Rightarrow> state \<Rightarrow> state" where
  "timerElapses c delay st =
     (case map_of (pendingEmailRetries st) c of
        None \<Rightarrow> st\<lparr>now := now st + delay\<rparr>
      | Some rd \<Rightarrow> cancelTimerOf rd (st\<lparr>now := now st + delay\<rparr>))"

function retryLoop ::
  "(nat \<Rightarrow> delivery) \<Rightarrow> form_data \<Rightarrow> upload list \<Rightarrow> string \<Rightarrow> payment_info option \<Rightarrow> nat
     \<Rightarrow> state \<Rightarrow> state" where
  "retryLoop transport fd fs c pay rc st =
     (case sendEmailsWithRetry (transport rc) fd fs c pay rc st of
        (WillRetry n delay, st1) \<Rightarrow> retryLoop transport fd fs c pay n (timerElapses c delay st1)
      | (_, st1) \<Rightarrow> st1)"
  by pat_completeness auto
termination
proof (relation "measure (\<lambda>(transport, fd, fs, c, pay, rc, st). maxRetries - rc)")
  show "wf (measure (\<lambda>(transport, fd, fs, c, pay, rc, st). maxRetries - rc))"
    by simp
next
  fix transport :: "nat \<Rightarrow> delivery" and fd :: form_data and fs :: "upload list" and c :: string
    and pay :: "payment_info option" and rc :: nat and st st1 :: state and x :: email_result
    and n :: nat and delay :: int
  assume "(x, st1) = sendEmailsWithRetry (transport rc) fd fs c pay rc st"
    and "x = WillRetry n delay"
  then have "rc < maxRetries \<and> n = rc + 1"
    by (cases "transport rc")
      (auto simp add: sendEmailsWithRetry_def sendEmailsWithRetry_settle_def Let_def split_def
        split: option.splits if_splits)
  then show "((transport, fd, fs, c, pay, n, timerElapses c delay st1),
              (transport, fd, fs, c, pay, rc, st))
      \<in> measure (\<lambda>(transport, fd, fs, c, pay, rc, st). maxRetries - rc)"
    by auto
qed

declare retryLoop.simps [simp del]

text \<open>The attempt numbers (line 119) and the scheduled retries with their delays (line 156)
  that the log holds for one identity, oldest first.\<close>

fun attemptsOf :: "string \<Rightarrow> log_line list \<Rightarrow> nat list" where
  "attemptsOf c [] = []"
| "attemptsOf c (SendingAttempt c' n # ls) =
     (if c' = c then n # attemptsOf c ls else attemptsOf c ls)"
| "attemptsOf c (l # ls) = attemptsOf c ls"

fun retriesOf :: "string \<Rightarrow> log_line list \<Rightarrow> (nat \<times> int) list" where
  "retriesOf c [] = []"
| "retriesOf c (RetryScheduled c' n d fb # ls) =
     (if c' = c then (n, d) # retriesOf c ls else retriesOf c ls)"
| "retriesOf c (l # ls) = retriesOf c ls"

subsection \<open>Retry counts in the Ledger and in the log\<close>

text \<open>The invariant of the event loop: the Ledger holds each identity once, as a Map does;
  every Ledger entry carries a retry count from 1 to \<open>maxRetries\<close>; and every retry the log
  shows as scheduled has a number in that range and the delay the table holds at that
  position, read without the fallback.\<close>

definition entryOk :: "string \<times> retry_data \<Rightarrow> bool" where
  "entryOk e = (1 \<le> retryCount (snd e) \<and> retryCount (snd e) \<le> maxRetries)"

fun lineOk :: "log_line \<Rightarrow> bool" where
  "lineOk (RetryScheduled c n d fb) =
     (\<not> fb \<and> 1 \<le> n \<and> n \<le> maxRetries \<and> d = retryDelays ! (n - 1))"
| "lineOk l = True"

definition countsOk :: "state \<Rightarrow> bool" where
  "countsOk st =
     (distinct (map fst (pendingEmailRetries st)) \<and> list_all entryOk (pendingEmailRetries st)
      \<and> list_all lineOk (console st))"

subsection \<open>Sample submission\<close>

text \<open>A well-formed paid submission with one upload, used where a property is shown at a
  concrete input.\<close>

definition sampleForm :: form_data where
  "sampleForm =
     [(''name'', ''A''), (''email'', ''a@b.c''), (''phone'', ''1''), (''service'', ''ITR''),
      (''paymentId'', ''p1'')]"

definition sampleFile :: upload where
  "sampleFile = \<lparr>fieldname = ''aadharCard'', originalname = ''a.pdf'', path = ''u/a''\<rparr>"

definition samplePayment :: payment_info where
  "samplePayment =
     \<lparr>paymentId = ''p1'', orderId = None, amount = None, transactionId = ''p1'',
      orderStatus = ''PAID''\<rparr>"

subsection \<open>Sample states\<close>

text \<open>The state right after the first, failed attempt of the sample submission at time 0 in
  the development profile: one Ledger entry with retry count 1, its timer armed for 30 s.\<close>

definition samplePending :: state where
  "samplePending =
     \<lparr>pendingEmailRetries =
        [(''X'', \<lparr>formData = sampleForm, files = [sampleFile], clientId = ''X'',
                  paymentInfo = Some samplePayment, retryCount = 1, createdAt = 0,
                  timeoutId = Some 0\<rparr>)],
      timers = [\<lparr>tid = 0, due = 30000,
                 cb = RetryCb sampleForm [sampleFile] ''X'' (Some samplePayment) 1\<rparr>],
      nextTimerId = 1, now = 0, production = False, disk = (\<lambda>p. Present),
      console = [SendingAttempt ''X'' 1, RetryScheduled ''X'' 1 30000 False], inflight = []\<rparr>"

text \<open>A manual retry that overlaps the automatic one (production profile): the timer's
  attempt succeeds and schedules the cleanup, the manual attempt fails and opens the entry
  again; the retries go on while the cleanup timer fires twice.\<close>

definition raceEvents :: "event list" where
  "raceEvents =
     [Contact sampleForm [sampleFile] ''X'', Settles 0 (Failed ''e''),
      Advance 30000, TimerFires 0, ManualRetry (Some ''X''), Settles 0 Sent,
      Settles 0 (Failed ''e''),
      Advance 60000, TimerFires 2, Settles 0 (Failed ''e''),
      Advance 120000, TimerFires 3, Settles 0 (Failed ''e''),
      Advance 120000, TimerFires 1, Advance 120000, TimerFires 5]"

text \<open>The sample submission when every attempt fails and each retry timer fires when it is
  due: six attempts, the last one at 1110 s.\<close>

definition exhaustEvents :: "event list" where
  "exhaustEvents =
     [Contact sampleForm [sampleFile] ''X'', Settles 0 (Failed ''e''),
      Advance 30000, TimerFires 0, Settles 0 (Failed ''e''),
      Advance 60000, TimerFires 1, Settles 0 (Failed ''e''),
      Advance 120000, TimerFires 2, Settles 0 (Failed ''e''),
      Advance 300000, TimerFires 3, Settles 0 (Failed ''e''),
      Advance 600000, TimerFires 4, Settles 0 (Failed ''e'')]"

text \<open>The state that run ends in: the uploads are cleaned, the entry with retry count 5,
  written at 510 s, is still in the Ledger.\<close>

definition sampleExhausted :: state where
  "sampleExhausted =
     \<lparr>pendingEmailRetries =
        [(''X'', \<lparr>formData = sampleForm, files = [sampleFile], clientId = ''X'',
                  paymentInfo = Some samplePayment, retryCount = 5, createdAt = 510000,
                  timeoutId = Some 4\<rparr>)],
      timers = [], nextTimerId = 5, now = 1110000, production = False,
      disk = (\<lambda>p. Present)(''u/a'' := Missing),
      console =
        [SendingAttempt ''X'' 1, RetryScheduled ''X'' 1 30000 False,
         SendingAttempt ''X'' 2, RetryScheduled ''X'' 2 60000 False,
         SendingAttempt ''X'' 3, RetryScheduled ''X'' 3 120000 False,
         SendingAttempt ''X'' 4, RetryScheduled ''X'' 4 300000 False,
         SendingAttempt ''X'' 5, RetryScheduled ''X'' 5 600000 False,
         SendingAttempt ''X'' 6,
         CleanupStarted ''X'' [sampleFile] True, CleanupCompleted ''X'' 1 0],
      inflight = []\<rparr>"

text \<open>A manual retry that arrives while the attempt started by the retry timer is still
  waiting for the transport; both attempts fail.\<close>

definition overlapEvents :: "event list" where
  "overlapEvents =
     [Contact sampleForm [sampleFile] ''X'', Settles 0 (Failed ''e''),
      Advance 30000, TimerFires 0, ManualRetry (Some ''X''),
      Settles 0 (Failed ''e''), Settles 0 (Failed ''e'')]"

section \<open>Properties\<close>

lemmas send_defs =
  sendEmailsWithRetry_def sendEmailsWithRetry_settle_def sendEmailsWithRetry_begin_def
  logLine_def setTimeout_def clearTimeout_def cancelTimerOf_def scheduleFileCleanup_def has_def

lemmas config_defs = maxRetries_def retryDelay_def usesFallback_def delayAt_def retryDelays_def

lemmas sample_defs = initial_def sampleForm_def sampleFile_def samplePayment_def

lemmas run_defs =
  run_def contactValidate_def truthy_def startsWith_def extractPayment_def suspend_def
  fireTimer_def settle_def contactResume_def retryEmailPrepare_def sample_defs
  sendEmailsWithRetry_settle_def sendEmailsWithRetry_begin_def logLine_def setTimeout_def
  clearTimeout_def cancelTimerOf_def scheduleFileCleanup_def has_def config_defs
  cleanupCheck_def cleanupFiles_def existsSync_def unlink_def

lemma samplePending_reached:
  "run [Contact sampleForm [sampleFile] ''X'', Settles 0 (Failed ''e'')]
     (initial False (\<lambda>p. Present)) = samplePending"
  by (simp add: run_defs samplePending_def)

subsection \<open>Failure of an unpaid submission\<close>

text \<open>
  Claim C8. For a submission without \<^verbatim>\<open>paymentInfo\<close> whose delivery attempt fails,
  \<^verbatim>\<open>sendEmailsWithRetry\<close> returns \<^verbatim>\<open>{success: false, willRetry: false, error}\<close> at once,
  whatever the attempt index and the state: the Ledger, the armed timers and the files on
  storage are as before, and the only new log line is the attempt itself, so no entry is
  created, no timer is armed and the Attachment Cleaner is not invoked.
\<close>

theorem unpaid_failure_is_final:
  "sendEmailsWithRetry (Failed msg) fd fs c None rc st =
     (NoRetry msg, st\<lparr>console := console st @ [SendingAttempt c (rc + 1)]\<rparr>)"
  by (simp add: send_defs)

subsection \<open>The entry written after a failure\<close>

text \<open>
  Claim C6, as stated, fails: the entry written after a failed attempt of a paid submission
  always takes \<^verbatim>\<open>Date.now()\<close> as its creation timestamp. The sample submission fails at
  time 0 and again, from its timer, at 30 s: the first entry is stamped 0, the one that
  replaces it 30000.
\<close>

theorem creation_timestamp_reset_counterexample:
  "map_option createdAt
     (map_of (pendingEmailRetries
        (run [Contact sampleForm [sampleFile] ''X'', Settles 0 (Failed ''e'')]
           (initial False (\<lambda>p. Present)))) ''X'') = Some 0
   \<and> map_option createdAt
     (map_of (pendingEmailRetries
        (run [Contact sampleForm [sampleFile] ''X'', Settles 0 (Failed ''e''), Advance 30000,
              TimerFires 0, Settles 0 (Failed ''e'')]
           (initial False (\<lambda>p. Present)))) ''X'') = Some 30000"
  by (simp add: run_defs)

text \<open>
  Claim C6, amended. When the attempt with index \<open>rc < maxRetries\<close> of a paid submission
  fails, whether or not the Ledger already holds an entry for the identity, the result is
  \<^verbatim>\<open>willRetry\<close> with retry count \<open>rc + 1\<close>, and the Ledger entry of the identity is a fresh
  record: submission data, attachments and payment info are the call's arguments, the retry
  count is \<open>rc + 1\<close>, the timer handle is the one just armed, and the creation timestamp is
  the time of this latest failure.
\<close>

theorem failure_writes_fresh_entry:
  "rc < maxRetries \<Longrightarrow>
   fst (sendEmailsWithRetry (Failed msg) fd fs c (Some p) rc st) = WillRetry (rc + 1) (retryDelay rc)
   \<and> map_of (pendingEmailRetries (snd (sendEmailsWithRetry (Failed msg) fd fs c (Some p) rc st))) c
       = Some \<lparr>formData = fd, files = fs, clientId = c, paymentInfo = Some p,
               retryCount = rc + 1, createdAt = now st, timeoutId = Some (nextTimerId st)\<rparr>"
  by (simp add: send_defs Let_def update_conv')

theorem failure_writes_fresh_entry_witness:
  "(1::nat) < maxRetries
   \<and> map_of (pendingEmailRetries samplePending) ''X''
       = Some \<lparr>formData = sampleForm, files = [sampleFile], clientId = ''X'',
               paymentInfo = Some samplePayment, retryCount = 1, createdAt = 0,
               timeoutId = Some 0\<rparr>
   \<and> map_of (pendingEmailRetries (snd (sendEmailsWithRetry (Failed ''e'') sampleForm [sampleFile]
        ''X'' (Some samplePayment) 1 (samplePending\<lparr>now := 30000\<rparr>)))) ''X''
       = Some \<lparr>formData = sampleForm, files = [sampleFile], clientId = ''X'',
               paymentInfo = Some samplePayment, retryCount = 2, createdAt = 30000,
               timeoutId = Some 1\<rparr>"
  using failure_writes_fresh_entry [of 1 "''e''" sampleForm "[sampleFile]" "''X''" samplePayment
      "samplePending\<lparr>now := 30000\<rparr>"]
  by (simp add: samplePending_def maxRetries_def)

subsection \<open>A successful attempt\<close>

text \<open>
  Claim C5, as stated, fails: on a first attempt that succeeds there is no Ledger entry, and
  \<^verbatim>\<open>sendEmailsWithRetry\<close> then returns \<^verbatim>\<open>{success: true}\<close> without calling
  \<^verbatim>\<open>scheduleFileCleanup\<close>, although the attachment list is not empty: no timer is armed.
\<close>

theorem first_success_schedules_nothing_counterexample:
  "fst (sendEmailsWithRetry Sent sampleForm [sampleFile] ''X'' (Some samplePayment) 0
          (initial False (\<lambda>p. Present))) = Success
   \<and> timers (snd (sendEmailsWithRetry Sent sampleForm [sampleFile] ''X'' (Some samplePayment) 0
          (initial False (\<lambda>p. Present)))) = []"
  by (simp add: send_defs initial_def)

text \<open>
  Claim C5, amended. Whenever \<^verbatim>\<open>sendEmailsWithRetry\<close> succeeds, for any attempt index and
  identity, it returns \<^verbatim>\<open>{success: true}\<close> and leaves no Ledger entry for the identity.
  If an entry existed, its timer is cancelled and, when the attachment list is not empty,
  \<^verbatim>\<open>scheduleFileCleanup\<close> arms the cleanup timer (5 minutes in production, 30 otherwise);
  if none existed, the timers are untouched. On that first-attempt path it is the
  \<^verbatim>\<open>/api/contact\<close> handler that calls \<^verbatim>\<open>scheduleFileCleanup\<close> after the successful return.
\<close>

theorem success_clears_entry:
  "fst (sendEmailsWithRetry Sent fd fs c pay rc st) = Success
   \<and> map_of (pendingEmailRetries (snd (sendEmailsWithRetry Sent fd fs c pay rc st))) c = None
   \<and> timers (snd (sendEmailsWithRetry Sent fd fs c pay rc st)) =
       (case map_of (pendingEmailRetries st) c of
          None \<Rightarrow> timers st
        | Some rd \<Rightarrow>
            filter (\<lambda>t. Some (tid t) \<noteq> timeoutId rd) (timers st) @
            (if fs = [] then []
             else [\<lparr>tid = nextTimerId st,
                    due = now st + (if production st then 5 * 60 * 1000 else 30 * 60 * 1000),
                    cb = CleanupCheckCb fs c\<rparr>]))
   \<and> (contactValidate fd fs st = (None, st) \<and> map_of (pendingEmailRetries st) c = None \<longrightarrow>
        fst (contactHandler Sent fd fs c st) = Submitted200 c (length fs)
        \<and> timers (snd (contactHandler Sent fd fs c st)) =
            timers st @
            [\<lparr>tid = nextTimerId st,
              due = now st + (if production st then 5 * 60 * 1000 else 30 * 60 * 1000),
              cb = CleanupCheckCb fs c\<rparr>])"
proof (intro conjI impI)
  show "fst (sendEmailsWithRetry Sent fd fs c pay rc st) = Success"
    by (simp add: send_defs Let_def split: option.splits)
  show "map_of (pendingEmailRetries (snd (sendEmailsWithRetry Sent fd fs c pay rc st))) c = None"
    by (simp add: send_defs Let_def delete_conv split: option.splits)
  show "timers (snd (sendEmailsWithRetry Sent fd fs c pay rc st)) =
       (case map_of (pendingEmailRetries st) c of
          None \<Rightarrow> timers st
        | Some rd \<Rightarrow>
            filter (\<lambda>t. Some (tid t) \<noteq> timeoutId rd) (timers st) @
            (if fs = [] then []
             else [\<lparr>tid = nextTimerId st,
                    due = now st + (if production st then 5 * 60 * 1000 else 30 * 60 * 1000),
                    cb = CleanupCheckCb fs c\<rparr>]))"
    by (cases "map_of (pendingEmailRetries st) c") (auto simp add: send_defs Let_def split: option.splits)
next
  assume a: "contactValidate fd fs st = (None, st) \<and> map_of (pendingEmailRetries st) c = None"
  then have ne: "fs \<noteq> []"
    by (auto simp add: contactValidate_def split: if_splits)
  from a ne show "fst (contactHandler Sent fd fs c st) = Submitted200 c (length fs)"
    by (simp add: contactHandler_def contactResume_def send_defs Let_def)
  from a ne show "timers (snd (contactHandler Sent fd fs c st)) =
            timers st @
            [\<lparr>tid = nextTimerId st,
              due = now st + (if production st then 5 * 60 * 1000 else 30 * 60 * 1000),
              cb = CleanupCheckCb fs c\<rparr>]"
    by (simp add: contactHandler_def contactResume_def send_defs Let_def)
qed

theorem success_clears_entry_witness:
  "timers (snd (sendEmailsWithRetry Sent sampleForm [sampleFile] ''X'' (Some samplePayment) 1
       (samplePending\<lparr>now := 30000\<rparr>))) =
     [\<lparr>tid = 1, due = 1830000, cb = CleanupCheckCb [sampleFile] ''X''\<rparr>]
   \<and> contactValidate sampleForm [sampleFile] (initial False (\<lambda>p. Present))
       = (None, initial False (\<lambda>p. Present))
   \<and> fst (contactHandler Sent sampleForm [sampleFile] ''X'' (initial False (\<lambda>p. Present)))
       = Submitted200 ''X'' 1
   \<and> timers (snd (contactHandler Sent sampleForm [sampleFile] ''X'' (initial False (\<lambda>p. Present))))
       = [\<lparr>tid = 0, due = 1800000, cb = CleanupCheckCb [sampleFile] ''X''\<rparr>]"
  using success_clears_entry [of sampleForm "[sampleFile]" "''X''" "Some samplePayment" 1
      "samplePending\<lparr>now := 30000\<rparr>"]
    success_clears_entry [of sampleForm "[sampleFile]" "''X''" "Some samplePayment" 0
      "initial False (\<lambda>p. Present)"]
  by (simp add: samplePending_def contactValidate_def truthy_def startsWith_def sample_defs)


subsection \<open>The Attachment Cleaner\<close>

lemma cleanupLoop_closed:
  "cleanupLoop fs d a b =
     (a + card {p \<in> path ` set fs. d p = Present},
      b + length (filter (\<lambda>f. d (path f) = Undeletable) fs),
      (\<lambda>p. if p \<in> path ` set fs \<and> d p = Present then Missing else d p))"
proof (induction fs arbitrary: d a b)
  case Nil
  then show ?case by simp
next
  case (Cons f fs)
  show ?case
  proof (cases "d (path f)")
    case Missing
    have "{p \<in> path ` set (f # fs). d p = Present} = {p \<in> path ` set fs. d p = Present}"
      using Missing by auto
    moreover have "(\<lambda>p. if p \<in> path ` set (f # fs) \<and> d p = Present then Missing else d p)
        = (\<lambda>p. if p \<in> path ` set fs \<and> d p = Present then Missing else d p)"
      using Missing by (intro ext) auto
    ultimately show ?thesis
      using Missing by (simp add: existsSync_def Cons.IH)
  next
    case Present
    let ?d = "d(path f := Missing)"
    have s: "{p \<in> path ` set (f # fs). d p = Present}
        = insert (path f) {p \<in> path ` set fs. ?d p = Present}"
      using Present by auto
    have n: "path f \<notin> {p \<in> path ` set fs. ?d p = Present}"
      by simp
    have c: "card {p \<in> path ` set (f # fs). d p = Present}
        = Suc (card {p \<in> path ` set fs. ?d p = Present})"
      unfolding s using n by (subst card_insert_disjoint) auto
    have e: "filter (\<lambda>g. ?d (path g) = Undeletable) fs = filter (\<lambda>g. d (path g) = Undeletable) fs"
      using Present by (intro filter_cong) auto
    have u: "(\<lambda>p. if p \<in> path ` set fs \<and> ?d p = Present then Missing else ?d p)
        = (\<lambda>p. if p \<in> path ` set (f # fs) \<and> d p = Present then Missing else d p)"
      using Present by (intro ext) auto
    have "cleanupLoop (f # fs) d a b = cleanupLoop fs ?d (Suc a) b"
      using Present by (simp add: existsSync_def unlink_def)
    also have "\<dots> = (Suc a + card {p \<in> path ` set fs. ?d p = Present},
        b + length (filter (\<lambda>g. ?d (path g) = Undeletable) fs),
        (\<lambda>p. if p \<in> path ` set fs \<and> ?d p = Present then Missing else ?d p))"
      by (rule Cons.IH)
    also have "\<dots> = (a + card {p \<in> path ` set (f # fs). d p = Present},
        b + length (filter (\<lambda>g. d (path g) = Undeletable) (f # fs)),
        (\<lambda>p. if p \<in> path ` set (f # fs) \<and> d p = Present then Missing else d p))"
    proof -
      have "filter (\<lambda>g. d (path g) = Undeletable) (f # fs)
          = filter (\<lambda>g. d (path g) = Undeletable) fs"
        using Present by simp
      then show ?thesis
        by (simp only: c e u add_Suc_right add_Suc)
    qed
    finally show ?thesis .
  next
    case Undeletable
    have "{p \<in> path ` set (f # fs). d p = Present} = {p \<in> path ` set fs. d p = Present}"
      using Undeletable by auto
    moreover have "(\<lambda>p. if p \<in> path ` set (f # fs) \<and> d p = Present then Missing else d p)
        = (\<lambda>p. if p \<in> path ` set fs \<and> d p = Present then Missing else d p)"
      using Undeletable by (intro ext) auto
    ultimately show ?thesis
      using Undeletable by (simp add: existsSync_def unlink_def Cons.IH)
  qed
qed

lemma cleanupFiles_closed:
  "cleanupFiles fs c st =
     st\<lparr>disk := (\<lambda>p. if p \<in> path ` set fs \<and> disk st p = Present then Missing else disk st p),
        console := console st @
          [CleanupStarted c fs (has c st),
           CleanupCompleted c (card {p \<in> path ` set fs. disk st p = Present})
             (length (filter (\<lambda>f. disk st (path f) = Undeletable) fs))]\<rparr>"
  by (simp add: cleanupFiles_def logLine_def cleanupLoop_closed cong: if_cong)




subsection \<open>The Cleanup Scheduler's timer\<close>

text \<open>
  Claim C2, as stated, fails: the deferred firing does not look at the Ledger again. In the
  production profile, with a manual retry overlapping the automatic one, the cleanup is
  scheduled at 30 s by the attempt that succeeds while the attempt that fails opens the
  entry again. The cleanup timer fires at 330 s, finds the entry and defers by 2 minutes;
  at 450 s the deferred timer invokes \<^verbatim>\<open>cleanupFiles\<close> although the entry is still in
  the Ledger with retry 4 armed for 510 s, and the upload is deleted.
\<close>

theorem deferred_cleanup_skips_check_counterexample:
  "console (run raceEvents (initial True (\<lambda>p. Present))) =
     [SendingAttempt ''X'' 1, RetryScheduled ''X'' 1 30000 False,
      SendingAttempt ''X'' 2, SendingAttempt ''X'' 2,
      RetryScheduled ''X'' 2 60000 False, SendingAttempt ''X'' 3,
      RetryScheduled ''X'' 3 120000 False, SendingAttempt ''X'' 4,
      RetryScheduled ''X'' 4 300000 False,
      CleanupStarted ''X'' [sampleFile] True, CleanupCompleted ''X'' 1 0]
   \<and> has ''X'' (run raceEvents (initial True (\<lambda>p. Present)))
   \<and> map tid (timers (run raceEvents (initial True (\<lambda>p. Present)))) = [4]
   \<and> disk (run raceEvents (initial True (\<lambda>p. Present))) ''u/a'' = Missing"
  by (simp add: run_defs raceEvents_def)

text \<open>
  Claim C2, amended. When the Cleanup Scheduler's timer fires and a Ledger entry for the
  identity exists, the scheduler invokes nothing and arms one further timer with the shorter
  interval (2 minutes in the production profile, 10 minutes otherwise); when no entry exists
  it invokes \<^verbatim>\<open>cleanupFiles\<close> at once. The deferred timer, once due, invokes
  \<^verbatim>\<open>cleanupFiles\<close> without looking at the Ledger: the deferral happens once, and the
  cleaner starts whether or not an entry is present then.
\<close>

theorem cleanup_deferred_once:
  "(has c st \<longrightarrow>
      cleanupCheck fs c st =
        st\<lparr>timers := timers st @
              [\<lparr>tid = nextTimerId st,
                due = now st + (if production st then 2 * 60 * 1000 else 10 * 60 * 1000),
                cb = CleanupRunCb fs c\<rparr>],
           nextTimerId := Suc (nextTimerId st)\<rparr>)
   \<and> (\<not> has c st \<longrightarrow> cleanupCheck fs c st = cleanupFiles fs c st)
   \<and> (find (\<lambda>t. tid t = h) (timers st) = Some t \<and> cb t = CleanupRunCb fs c \<and> due t \<le> now st \<longrightarrow>
        fireTimer h st = cleanupFiles fs c (clearTimeout h st)
        \<and> take 1 (drop (length (console st)) (console (fireTimer h st)))
            = [CleanupStarted c fs (has c st)])"
  by (auto simp add: cleanupCheck_def setTimeout_def fireTimer_def cleanupFiles_closed
      clearTimeout_def has_def)

theorem cleanup_deferred_once_witness:
  "has ''X'' samplePending
   \<and> timers (cleanupCheck [sampleFile] ''X'' samplePending) =
       timers samplePending @ [\<lparr>tid = 1, due = 600000, cb = CleanupRunCb [sampleFile] ''X''\<rparr>]
   \<and> console (cleanupCheck [sampleFile] ''X'' samplePending) = console samplePending
   \<and> \<not> has ''X'' (initial False (\<lambda>p. Present))
   \<and> console (cleanupCheck [sampleFile] ''X'' (initial False (\<lambda>p. Present)))
       = [CleanupStarted ''X'' [sampleFile] False, CleanupCompleted ''X'' 1 0]
   \<and> console (fireTimer 1 ((cleanupCheck [sampleFile] ''X'' samplePending)\<lparr>now := 600000\<rparr>))
       = console samplePending @
         [CleanupStarted ''X'' [sampleFile] True, CleanupCompleted ''X'' 1 0]"
  using cleanup_deferred_once [of "''X''" samplePending "[sampleFile]" 1
      "\<lparr>tid = 1, due = 600000, cb = CleanupRunCb [sampleFile] ''X''\<rparr>"]
    cleanup_deferred_once [of "''X''" "initial False (\<lambda>p. Present)" "[sampleFile]" 1
      "\<lparr>tid = 1, due = 600000, cb = CleanupRunCb [sampleFile] ''X''\<rparr>"]
    cleanup_deferred_once [of "''X''" "(cleanupCheck [sampleFile] ''X'' samplePending)\<lparr>now := 600000\<rparr>"
      "[sampleFile]" 1 "\<lparr>tid = 1, due = 600000, cb = CleanupRunCb [sampleFile] ''X''\<rparr>"]
  by (simp add: samplePending_def run_defs)

subsection \<open>The Expiry Sweeper\<close>

lemmas sweep_defs = cleanupOldRetries_def expiredEntries_def purgeEntry_def maxAge_def

lemma cleanupFiles_keeps [simp]:
  "pendingEmailRetries (cleanupFiles fs c st) = pendingEmailRetries st"
  "timers (cleanupFiles fs c st) = timers st"
  "nextTimerId (cleanupFiles fs c st) = nextTimerId st"
  "now (cleanupFiles fs c st) = now st"
  "production (cleanupFiles fs c st) = production st"
  "inflight (cleanupFiles fs c st) = inflight st"
  by (simp_all add: cleanupFiles_def logLine_def split_def Let_def)

lemma cleanupFiles_console:
  "console (cleanupFiles fs c st) =
     console st @
     [CleanupStarted c fs (has c st),
      CleanupCompleted c (fst (cleanupLoop fs (disk st) 0 0))
        (fst (snd (cleanupLoop fs (disk st) 0 0)))]"
  by (simp add: cleanupFiles_def logLine_def split_def Let_def)

lemma cancelTimerOf_keeps [simp]:
  "pendingEmailRetries (cancelTimerOf rd st) = pendingEmailRetries st"
  "console (cancelTimerOf rd st) = console st"
  "nextTimerId (cancelTimerOf rd st) = nextTimerId st"
  "now (cancelTimerOf rd st) = now st"
  "disk (cancelTimerOf rd st) = disk st"
  "inflight (cancelTimerOf rd st) = inflight st"
  by (simp_all add: cancelTimerOf_def clearTimeout_def split: option.splits)


lemma has_cancelTimerOf [simp]: "has c (cancelTimerOf rd st) = has c st"
  by (simp add: has_def)

lemma purgeEntry_ledger:
  "pendingEmailRetries (purgeEntry c st) = AList.delete c (pendingEmailRetries st)"
proof (cases "map_of (pendingEmailRetries st) c")
  case None
  then have "c \<notin> fst ` set (pendingEmailRetries st)"
    by (simp add: map_of_eq_None_iff)
  then have "AList.delete c (pendingEmailRetries st) = pendingEmailRetries st"
    by (simp add: delete_id)
  with None show ?thesis
    by (simp add: purgeEntry_def)
next
  case (Some rd)
  then show ?thesis
    by (simp add: purgeEntry_def Let_def)
qed











lemma sampleExhausted_reached:
  "run exhaustEvents (initial False (\<lambda>p. Present)) = sampleExhausted"
  by (simp add: run_defs exhaustEvents_def sampleExhausted_def)




subsection \<open>Cleanup and the Ledger\<close>

text \<open>
  Claim C1, as stated, fails: \<^verbatim>\<open>cleanupFiles\<close> is invoked while the Ledger holds an entry
  for the identity. When all six attempts of the sample submission have failed, the cleaner
  starts with the entry present (first \<open>CleanupStarted\<close> line, flag \<open>True\<close>); the sweep
  at 2610 s finds the entry expired and starts the cleaner again before it removes the entry
  (second line).
\<close>

theorem cleanup_with_entry_present_counterexample:
  "console (run (exhaustEvents @ [Advance 1500000, Sweep]) (initial False (\<lambda>p. Present))) =
     [SendingAttempt ''X'' 1, RetryScheduled ''X'' 1 30000 False,
      SendingAttempt ''X'' 2, RetryScheduled ''X'' 2 60000 False,
      SendingAttempt ''X'' 3, RetryScheduled ''X'' 3 120000 False,
      SendingAttempt ''X'' 4, RetryScheduled ''X'' 4 300000 False,
      SendingAttempt ''X'' 5, RetryScheduled ''X'' 5 600000 False,
      SendingAttempt ''X'' 6,
      CleanupStarted ''X'' [sampleFile] True, CleanupCompleted ''X'' 1 0,
      CleanupStarted ''X'' [sampleFile] True, CleanupCompleted ''X'' 0 0]"
  by (simp add: run_defs exhaustEvents_def sweep_defs)

text \<open>
  Claim C1, amended. The Ledger is consulted at the first firing of the Cleanup Scheduler's
  timer only: at that firing \<^verbatim>\<open>cleanupFiles\<close> is invoked exactly when no entry for the
  identity is present, and nothing is deleted when one is. The Expiry Sweeper invokes
  \<^verbatim>\<open>cleanupFiles\<close> on the files of an expired entry while the entry is still in the
  Ledger, and removes the entry directly afterwards, in the same turn.
\<close>

theorem cleanup_ledger_guard:
  "(has c st \<longrightarrow>
      console (cleanupCheck fs c st) = console st \<and> disk (cleanupCheck fs c st) = disk st)
   \<and> (\<not> has c st \<longrightarrow>
        take 1 (drop (length (console st)) (console (cleanupCheck fs c st)))
          = [CleanupStarted c fs False])
   \<and> (map_of (pendingEmailRetries st) c = Some rd \<and> files rd \<noteq> [] \<longrightarrow>
        take 1 (drop (length (console st)) (console (purgeEntry c st)))
          = [CleanupStarted c (files rd) True]
        \<and> \<not> has c (purgeEntry c st))"
proof (intro conjI impI)
  assume "has c st"
  then show "console (cleanupCheck fs c st) = console st"
    and "disk (cleanupCheck fs c st) = disk st"
    by (simp_all add: cleanupCheck_def setTimeout_def)
next
  assume "\<not> has c st"
  then show "take 1 (drop (length (console st)) (console (cleanupCheck fs c st)))
          = [CleanupStarted c fs False]"
    by (simp add: cleanupCheck_def cleanupFiles_console)
next
  assume a: "map_of (pendingEmailRetries st) c = Some rd \<and> files rd \<noteq> []"
  then show "take 1 (drop (length (console st)) (console (purgeEntry c st)))
          = [CleanupStarted c (files rd) True]"
    by (simp add: purgeEntry_def Let_def cleanupFiles_console has_def)
  show "\<not> has c (purgeEntry c st)"
    by (simp add: has_def purgeEntry_ledger delete_conv)
qed

theorem cleanup_ledger_guard_witness:
  "has ''X'' samplePending
   \<and> console (cleanupCheck [sampleFile] ''X'' samplePending) = console samplePending
   \<and> \<not> has ''X'' (initial False (\<lambda>p. Present))
   \<and> take 1 (console (cleanupCheck [sampleFile] ''X'' (initial False (\<lambda>p. Present))))
       = [CleanupStarted ''X'' [sampleFile] False]
   \<and> take 1 (drop (length (console sampleExhausted))
        (console (purgeEntry ''X'' (sampleExhausted\<lparr>now := 2610000\<rparr>))))
       = [CleanupStarted ''X'' [sampleFile] True]
   \<and> \<not> has ''X'' (purgeEntry ''X'' (sampleExhausted\<lparr>now := 2610000\<rparr>))"
  using cleanup_ledger_guard [of "''X''" samplePending "[sampleFile]"]
    cleanup_ledger_guard [of "''X''" "initial False (\<lambda>p. Present)" "[sampleFile]"]
    cleanup_ledger_guard [of "''X''" "sampleExhausted\<lparr>now := 2610000\<rparr>" "[sampleFile]"
      "\<lparr>formData = sampleForm, files = [sampleFile], clientId = ''X'',
        paymentInfo = Some samplePayment, retryCount = 5, createdAt = 510000,
        timeoutId = Some 4\<rparr>"]
  by (simp add: sampleExhausted_def samplePending_def initial_def has_def)

subsection \<open>The retry budget\<close>

lemma attemptsOf_append [simp]: "attemptsOf c (xs @ ys) = attemptsOf c xs @ attemptsOf c ys"
  by (induction c xs rule: attemptsOf.induct) simp_all

lemma retriesOf_append [simp]: "retriesOf c (xs @ ys) = retriesOf c xs @ retriesOf c ys"
  by (induction c xs rule: retriesOf.induct) simp_all

lemma delay_in_table:
  "rc < maxRetries \<Longrightarrow> \<not> usesFallback rc \<and> retryDelay rc = retryDelays ! rc"
proof -
  assume "rc < maxRetries"
  then have "rc = 0 \<or> rc = 1 \<or> rc = 2 \<or> rc = 3 \<or> rc = 4"
    by (auto simp add: maxRetries_def)
  then show ?thesis
    by (auto simp add: config_defs)
qed

lemma failed_attempt:
  assumes "rc < maxRetries"
  shows "sendEmailsWithRetry (Failed m) fd fs c (Some p) rc st =
    (WillRetry (rc + 1) (retryDelays ! rc),
     st\<lparr>console := console st @
           [SendingAttempt c (rc + 1), RetryScheduled c (rc + 1) (retryDelays ! rc) False],
        timers := timers st @
           [\<lparr>tid = nextTimerId st, due = now st + retryDelays ! rc,
             cb = RetryCb fd fs c (Some p) (rc + 1)\<rparr>],
        nextTimerId := Suc (nextTimerId st),
        pendingEmailRetries := AList.update c
           \<lparr>formData = fd, files = fs, clientId = c, paymentInfo = Some p,
             retryCount = rc + 1, createdAt = now st, timeoutId = Some (nextTimerId st)\<rparr>
           (pendingEmailRetries st)\<rparr>)"
  using assms delay_in_table [OF assms] by (simp add: send_defs Let_def)

lemma exhausted_attempt:
  assumes "\<not> rc < maxRetries"
  shows "sendEmailsWithRetry (Failed m) fd fs c (Some p) rc st =
    (NoRetry m,
     if fs \<noteq> [] then cleanupFiles fs c (st\<lparr>console := console st @ [SendingAttempt c (rc + 1)]\<rparr>)
     else st\<lparr>console := console st @ [SendingAttempt c (rc + 1)]\<rparr>)"
  using assms by (simp add: send_defs Let_def)




text \<open>On the sample submission the loop ends in the state the event loop reaches when
  each retry timer fires as it falls due and every attempt fails.\<close>

lemmas loop_step_defs =
  failed_attempt exhausted_attempt timerElapses_def update_conv' cancelTimerOf_def
  clearTimeout_def maxRetries_def retryDelays_def cleanupFiles_def logLine_def existsSync_def
  unlink_def has_def sample_defs

lemma retryLoop_agrees_with_events:
  "retryLoop (\<lambda>n. Failed ''e'') sampleForm [sampleFile] ''X'' (Some samplePayment) 0
     (initial False (\<lambda>p. Present)) = run exhaustEvents (initial False (\<lambda>p. Present))"
  unfolding sampleExhausted_reached
  apply (subst retryLoop.simps, simp add: loop_step_defs)
  apply (subst retryLoop.simps, simp add: loop_step_defs)
  apply (subst retryLoop.simps, simp add: loop_step_defs)
  apply (subst retryLoop.simps, simp add: loop_step_defs)
  apply (subst retryLoop.simps, simp add: loop_step_defs)
  apply (subst retryLoop.simps, simp add: loop_step_defs)
  apply (simp add: sampleExhausted_def sample_defs)
  done



subsection \<open>The range of the retry count\<close>

lemma list_all_update:
  "list_all P al \<Longrightarrow> P (k, v) \<Longrightarrow> list_all P (AList.update k v al)"
  by (induction al) auto

lemma list_all_delete:
  "list_all P al \<Longrightarrow> list_all P (AList.delete k al)"
  by (induction al) auto

lemma countsOk_initial: "countsOk (initial isProd d)"
  by (simp add: countsOk_def initial_def)

lemma countsOk_fields:
  "pendingEmailRetries st' = pendingEmailRetries st \<Longrightarrow> console st' = console st \<Longrightarrow>
   countsOk st \<Longrightarrow> countsOk st'"
  by (simp add: countsOk_def)

lemma countsOk_cleanupFiles: "countsOk st \<Longrightarrow> countsOk (cleanupFiles fs c st)"
  by (simp add: countsOk_def cleanupFiles_console)

lemma countsOk_cancel: "countsOk st \<Longrightarrow> countsOk (cancelTimerOf rd st)"
  by (simp add: countsOk_def)

lemma countsOk_clear: "countsOk st \<Longrightarrow> countsOk (clearTimeout h st)"
  by (simp add: countsOk_def clearTimeout_def)

lemma countsOk_setTimeout: "countsOk st \<Longrightarrow> countsOk (snd (setTimeout k d st))"
  by (simp add: countsOk_def setTimeout_def)

lemma countsOk_schedule: "countsOk st \<Longrightarrow> countsOk (scheduleFileCleanup fs c st)"
  by (simp add: scheduleFileCleanup_def countsOk_setTimeout)

lemma countsOk_unlinkAll: "countsOk st \<Longrightarrow> countsOk (unlinkAll fs st)"
  by (simp add: countsOk_def unlinkAll_def)

lemma countsOk_suspend: "countsOk st \<Longrightarrow> countsOk (suspend call st)"
  by (simp add: countsOk_def suspend_def sendEmailsWithRetry_begin_def logLine_def)

lemma countsOk_delete:
  "countsOk st \<Longrightarrow>
   countsOk (st\<lparr>pendingEmailRetries := AList.delete c (pendingEmailRetries st)\<rparr>)"
  by (simp add: countsOk_def list_all_delete distinct_delete)

lemma countsOk_cleanupCheck: "countsOk st \<Longrightarrow> countsOk (cleanupCheck fs c st)"
  by (simp add: cleanupCheck_def countsOk_setTimeout countsOk_cleanupFiles)

lemma countsOk_settle_call:
  assumes "countsOk st"
  shows "countsOk (snd (sendEmailsWithRetry_settle out fd fs c pay rc st))"
proof (cases out)
  case Sent
  show ?thesis
  proof (cases "map_of (pendingEmailRetries st) c")
    case None
    with Sent assms show ?thesis
      by (simp add: sendEmailsWithRetry_settle_def)
  next
    case (Some rd)
    have "countsOk ((cancelTimerOf rd st)\<lparr>pendingEmailRetries :=
        AList.delete c (pendingEmailRetries (cancelTimerOf rd st))\<rparr>)"
      using assms by (intro countsOk_delete countsOk_cancel)
    with Sent Some show ?thesis
      by (simp add: sendEmailsWithRetry_settle_def Let_def countsOk_schedule)
  qed
next
  case (Failed m)
  show ?thesis
  proof (cases "pay \<noteq> None \<and> rc < maxRetries")
    case True
    then have d: "\<not> usesFallback rc" "retryDelay rc = retryDelays ! rc"
      using delay_in_table [of rc] by simp_all
    from True Failed assms show ?thesis
      by (simp add: sendEmailsWithRetry_settle_def Let_def setTimeout_def logLine_def
          countsOk_def list_all_update entryOk_def d distinct_update)
  next
    case False
    with Failed assms show ?thesis
      by (auto simp add: sendEmailsWithRetry_settle_def countsOk_cleanupFiles)
  qed
qed

lemma countsOk_contactResume:
  "countsOk st \<Longrightarrow> countsOk (snd (contactResume res fs c pay st))"
  by (simp add: contactResume_def countsOk_schedule countsOk_unlinkAll)

lemma countsOk_settle: "countsOk st \<Longrightarrow> countsOk (settle k out st)"
proof -
  assume a: "countsOk st"
  have "countsOk (st\<lparr>inflight := take k (inflight st) @ drop (Suc k) (inflight st)\<rparr>)"
    using a by (simp add: countsOk_def)
  then show ?thesis
    using a
    by (simp add: settle_def Let_def split_def countsOk_settle_call countsOk_contactResume)
qed

lemma countsOk_purge: "countsOk st \<Longrightarrow> countsOk (purgeEntry c st)"
proof (cases "map_of (pendingEmailRetries st) c")
  case None
  assume "countsOk st"
  with None show ?thesis by (simp add: purgeEntry_def)
next
  case (Some rd)
  assume "countsOk st"
  then have "countsOk (if files rd \<noteq> [] then cleanupFiles (files rd) c (cancelTimerOf rd st)
      else cancelTimerOf rd st)"
    by (simp add: countsOk_cleanupFiles countsOk_cancel)
  then show ?thesis
    using Some by (simp add: purgeEntry_def Let_def countsOk_delete)
qed

lemma countsOk_sweep: "countsOk st \<Longrightarrow> countsOk (fold purgeEntry cs st)"
  by (induction cs arbitrary: st) (simp_all add: countsOk_purge)

lemma countsOk_fireTimer: "countsOk st \<Longrightarrow> countsOk (fireTimer h st)"
proof -
  assume a: "countsOk st"
  have "countsOk (runCallback k (clearTimeout h st))" for k
    using a
    by (cases k) (simp_all add: countsOk_suspend countsOk_cleanupCheck countsOk_cleanupFiles
        countsOk_clear)
  with a show ?thesis
    by (simp add: fireTimer_def split: option.splits)
qed

lemma countsOk_step: "countsOk st \<Longrightarrow> countsOk (step e st)"
proof (cases e)
  case (Advance dt)
  assume "countsOk st"
  with Advance show ?thesis by (simp add: countsOk_def)
next
  case (Contact fd fs c)
  assume "countsOk st"
  with Contact show ?thesis
    by (simp add: contactValidate_def countsOk_suspend countsOk_unlinkAll)
next
  case (TimerFires h)
  assume "countsOk st"
  with TimerFires show ?thesis by (simp add: countsOk_fireTimer)
next
  case (ManualRetry body)
  assume "countsOk st"
  with ManualRetry show ?thesis
    by (simp add: retryEmailPrepare_def countsOk_suspend countsOk_cancel split: option.splits)
next
  case (Settles k out)
  assume "countsOk st"
  with Settles show ?thesis by (simp add: countsOk_settle)
next
  case Sweep
  assume "countsOk st"
  with Sweep show ?thesis by (simp add: cleanupOldRetries_def countsOk_sweep)
qed

lemma countsOk_run: "countsOk st \<Longrightarrow> countsOk (run evs st)"
  unfolding run_def by (induction evs arbitrary: st) (simp_all add: countsOk_step)

lemma reachable_keys_distinct:
  "distinct (map fst (pendingEmailRetries (run evs (initial isProd d))))"
  using countsOk_run [OF countsOk_initial, of evs isProd d] by (simp add: countsOk_def)

text \<open>
  Claim C10. In every state the server reaches from its start, by any sequence of
  submissions, timer firings, manual retries, transport answers and sweeps, every Ledger
  entry has a retry count between 1 and \<open>maxRetries = 5\<close> (so never 0), and every
  scheduled retry was given the delay at its own position of the five-element table: the
  lookup \<^verbatim>\<open>retryDelays[retryCount]\<close> runs only under \<open>retryCount < maxRetries\<close>, where it
  finds a non-zero element, so the \<^verbatim>\<open>||\<close> fallback is never taken. The count stored
  by a failed attempt with index \<open>rc\<close> is \<open>rc + 1\<close>, the index of the attempt that the
  timer armed by the same call will run.
\<close>

theorem retry_count_in_range:
  "(\<forall>e \<in> set (pendingEmailRetries (run evs (initial isProd d))).
      1 \<le> retryCount (snd e) \<and> retryCount (snd e) \<le> maxRetries)
   \<and> (\<forall>l \<in> set (console (run evs (initial isProd d))).
        \<forall>c n dl fb. l = RetryScheduled c n dl fb \<longrightarrow>
          \<not> fb \<and> 1 \<le> n \<and> n \<le> maxRetries \<and> dl = retryDelays ! (n - 1))
   \<and> (\<forall>rc<maxRetries. \<not> usesFallback rc \<and> delayAt rc = Some (retryDelay rc))
   \<and> (\<forall>rc<maxRetries.
        map_option retryCount
          (map_of (pendingEmailRetries
             (snd (sendEmailsWithRetry (Failed msg) fd fs k (Some p) rc st))) k) = Some (rc + 1)
        \<and> map cb (timers (snd (sendEmailsWithRetry (Failed msg) fd fs k (Some p) rc st)))
            = map cb (timers st) @ [RetryCb fd fs k (Some p) (rc + 1)])"
proof -
  have ok: "countsOk (run evs (initial isProd d))"
    by (intro countsOk_run countsOk_initial)
  have a: "\<forall>e \<in> set (pendingEmailRetries (run evs (initial isProd d))).
      1 \<le> retryCount (snd e) \<and> retryCount (snd e) \<le> maxRetries"
    using ok by (simp add: countsOk_def list_all_iff entryOk_def)
  have b: "\<forall>l \<in> set (console (run evs (initial isProd d))).
        \<forall>c n dl fb. l = RetryScheduled c n dl fb \<longrightarrow>
          \<not> fb \<and> 1 \<le> n \<and> n \<le> maxRetries \<and> dl = retryDelays ! (n - 1)"
  proof (intro ballI allI impI)
    fix l c n dl fb
    assume "l \<in> set (console (run evs (initial isProd d)))" and "l = RetryScheduled c n dl fb"
    then have "lineOk (RetryScheduled c n dl fb)"
      using ok by (auto simp add: countsOk_def list_all_iff)
    then show "\<not> fb \<and> 1 \<le> n \<and> n \<le> maxRetries \<and> dl = retryDelays ! (n - 1)"
      by simp
  qed
  have c: "\<forall>rc<maxRetries. \<not> usesFallback rc \<and> delayAt rc = Some (retryDelay rc)"
  proof (intro allI impI)
    fix rc assume "rc < maxRetries"
    then have "rc = 0 \<or> rc = 1 \<or> rc = 2 \<or> rc = 3 \<or> rc = 4"
      by (auto simp add: maxRetries_def)
    then show "\<not> usesFallback rc \<and> delayAt rc = Some (retryDelay rc)"
      by (auto simp add: config_defs)
  qed
  have w: "\<forall>rc<maxRetries.
        map_option retryCount
          (map_of (pendingEmailRetries
             (snd (sendEmailsWithRetry (Failed msg) fd fs k (Some p) rc st))) k) = Some (rc + 1)
        \<and> map cb (timers (snd (sendEmailsWithRetry (Failed msg) fd fs k (Some p) rc st)))
            = map cb (timers st) @ [RetryCb fd fs k (Some p) (rc + 1)]"
    by (simp add: failed_attempt update_conv')
  from a b c w show ?thesis by blast
qed

theorem retry_count_in_range_witness:
  "map (\<lambda>e. retryCount (snd e)) (pendingEmailRetries (run exhaustEvents (initial False (\<lambda>p. Present))))
     = [5]
   \<and> (5::nat) \<le> maxRetries
   \<and> RetryScheduled ''X'' 5 600000 False
       \<in> set (console (run exhaustEvents (initial False (\<lambda>p. Present))))
   \<and> retryDelays ! (5 - 1) = 600000
   \<and> \<not> usesFallback 4 \<and> delayAt 4 = Some 600000
   \<and> map_option retryCount
        (map_of (pendingEmailRetries
           (snd (sendEmailsWithRetry (Failed ''e'') sampleForm [sampleFile] ''X''
                  (Some samplePayment) 4 sampleExhausted))) ''X'') = Some 5
   \<and> map cb (timers (snd (sendEmailsWithRetry (Failed ''e'') sampleForm [sampleFile] ''X''
                  (Some samplePayment) 4 sampleExhausted)))
       = [RetryCb sampleForm [sampleFile] ''X'' (Some samplePayment) 5]"
proof -
  note t = retry_count_in_range [where evs = exhaustEvents and isProd = False
      and d = "\<lambda>p. Present" and msg = "''e''" and fd = sampleForm and fs = "[sampleFile]"
      and k = "''X''" and p = samplePayment and st = sampleExhausted]
  have lt: "(4::nat) < maxRetries"
    by (simp add: maxRetries_def)
  have w: "map_option retryCount
        (map_of (pendingEmailRetries
           (snd (sendEmailsWithRetry (Failed ''e'') sampleForm [sampleFile] ''X''
                  (Some samplePayment) 4 sampleExhausted))) ''X'') = Some (4 + 1)
      \<and> map cb (timers (snd (sendEmailsWithRetry (Failed ''e'') sampleForm [sampleFile] ''X''
                  (Some samplePayment) 4 sampleExhausted)))
       = map cb (timers sampleExhausted) @
         [RetryCb sampleForm [sampleFile] ''X'' (Some samplePayment) (4 + 1)]"
    using t lt by blast
  have f: "\<not> usesFallback 4 \<and> delayAt 4 = Some (retryDelay 4)"
    using t lt by blast
  have r: "\<forall>e \<in> set (pendingEmailRetries (run exhaustEvents (initial False (\<lambda>p. Present)))).
      1 \<le> retryCount (snd e) \<and> retryCount (snd e) \<le> maxRetries"
    using t by blast
  from w f r show ?thesis
    by (simp add: sampleExhausted_reached sampleExhausted_def config_defs)
qed

subsection \<open>Timers per identity\<close>

text \<open>
  Claim C7 does not hold of the code. The success path, the sweeper and the manual-retry
  handler cancel the entry's timer before they remove or re-run the entry, but the failure
  path of \<^verbatim>\<open>sendEmailsWithRetry\<close> (lines 159-175) replaces the entry without cancelling
  the timer the old entry holds. When a manual retry arrives while the attempt started by
  the retry timer still waits for the transport and both attempts fail, each arms a timer
  for retry 2: the Ledger has one entry for the identity, holding handle 2, and two armed
  retry timers, handles 1 and 2, both due at 90 s.
\<close>

theorem overlapping_retries_arm_two_timers:
  "map tid (timers (run overlapEvents (initial False (\<lambda>p. Present)))) = [1, 2]
   \<and> map cb (timers (run overlapEvents (initial False (\<lambda>p. Present)))) =
       [RetryCb sampleForm [sampleFile] ''X'' (Some samplePayment) 2,
        RetryCb sampleForm [sampleFile] ''X'' (Some samplePayment) 2]
   \<and> map due (timers (run overlapEvents (initial False (\<lambda>p. Present)))) = [90000, 90000]
   \<and> map (\<lambda>e. (fst e, timeoutId (snd e)))
        (pendingEmailRetries (run overlapEvents (initial False (\<lambda>p. Present))))
       = [(''X'', Some 2)]"
  by (simp add: run_defs overlapEvents_def)

end
